theory Spec2Isabelle
  imports Complex_Main "HOL-Library.Sublist"
begin

section \<open>Data model\<close>

text \<open>
  A post as the posts endpoint delivers it. Only the fields that \<^verbatim>\<open>App.jsx\<close> reads are
  kept (\<^verbatim>\<open>id\<close>, \<^verbatim>\<open>title\<close>, \<^verbatim>\<open>body\<close>); the identifier is called \<open>post_id\<close> because
  \<open>id\<close> is the identity function of HOL.
\<close>

record raw_post =
  post_id :: int
  title :: string
  body :: string

text \<open>The object \<^verbatim>\<open>{ ...post, img: ... }\<close> built after the fetch.\<close>

record post = raw_post +
  img :: string

text \<open>
  The three \<^verbatim>\<open>useState\<close> cells of \<^verbatim>\<open>PostsProvider\<close>. The page cursor is a JavaScript
  number; the setter stores whatever it is given, so the cell is an \<open>int\<close> and not a
  positive number.
\<close>

record store =
  posts :: "post list"
  loading :: bool
  currentPage :: int

section \<open>JavaScript primitives\<close>

text \<open>
  \<^verbatim>\<open>Array.prototype.slice(start, end)\<close>: a negative index counts from the end of the
  array, an index beyond the length is cut to the length, and the result is empty when the
  first index is not before the last.
\<close>

definition js_slice :: "'a list \<Rightarrow> int \<Rightarrow> int \<Rightarrow> 'a list" where
  "js_slice xs start fin =
     (let len = int (length xs);
          k = (if start < 0 then max (len + start) 0 else min start len);
          final = (if fin < 0 then max (len + fin) 0 else min fin len)
      in take (nat (final - k)) (drop (nat k) xs))"

text \<open>Decimal rendering of an integer, as a template literal renders a number.\<close>

fun digits :: "nat \<Rightarrow> string" where
  "digits n =
     (if n < 10 then [char_of (48 + n)]
      else digits (n div 10) @ [char_of (48 + n mod 10)])"

definition number_to_string :: "int \<Rightarrow> string" where
  "number_to_string i = (if i < 0 then CHR ''-'' # digits (nat (- i)) else digits (nat i))"

section \<open>PostsProvider\<close>

text \<open>The initial values handed to \<^verbatim>\<open>useState\<close>.\<close>

definition initial_store :: store where
  "initial_store = \<lparr>posts = [], loading = True, currentPage = 1\<rparr>"

text \<open>
  The state setters. A setter takes either the new value or an updater function that is
  applied to the previous value; \<^verbatim>\<open>setPosts\<close> and \<^verbatim>\<open>setCurrentPage\<close> are used in both
  forms.
\<close>

definition setPosts :: "post list \<Rightarrow> store \<Rightarrow> store" where
  "setPosts v s = s\<lparr>posts := v\<rparr>"

definition setLoading :: "bool \<Rightarrow> store \<Rightarrow> store" where
  "setLoading v s = s\<lparr>loading := v\<rparr>"

definition setCurrentPage :: "int \<Rightarrow> store \<Rightarrow> store" where
  "setCurrentPage v s = s\<lparr>currentPage := v\<rparr>"

definition setCurrentPage_fn :: "(int \<Rightarrow> int) \<Rightarrow> store \<Rightarrow> store" where
  "setCurrentPage_fn f s = s\<lparr>currentPage := f (currentPage s)\<rparr>"

text \<open>\<^verbatim>\<open>data.map(post => ({ ...post, img: `https://picsum.photos/seed/${post.id}/400/250` }))\<close>\<close>

definition withImages :: "raw_post list \<Rightarrow> post list" where
  "withImages data =
     map (\<lambda>p. \<lparr>post_id = post_id p, title = title p, body = body p,
               img = ''https://picsum.photos/seed/'' @ number_to_string (post_id p) @ ''/400/250''\<rparr>)
       data"

text \<open>
  What \<^verbatim>\<open>await Promise.all([fetchPromise, delay])\<close> can produce: an array of posts, some
  other JSON value (on which \<^verbatim>\<open>data.map\<close> throws), or a rejection. The last two both
  end in the \<^verbatim>\<open>catch\<close> block.
\<close>

datatype fetch_outcome = Resolved_array "raw_post list" | Resolved_other | Rejected

text \<open>
  The part of \<^verbatim>\<open>fetchPosts\<close> that runs once the promise has settled; \<open>mounted\<close> is the
  flag the effect's cleanup clears. The \<^verbatim>\<open>finally\<close> block runs on every path, also after
  the early \<^verbatim>\<open>return\<close>. The result of \<^verbatim>\<open>data.map\<close> is always an array, so the
  \<^verbatim>\<open>Array.isArray\<close> test passes whenever it is reached.
\<close>

definition fetchPosts :: "bool \<Rightarrow> fetch_outcome \<Rightarrow> store \<Rightarrow> store" where
  "fetchPosts mounted outcome s =
     (let s1 = (case outcome of
                  Resolved_array data \<Rightarrow>
                    if \<not> mounted then s else setPosts (withImages data) s
                | Resolved_other \<Rightarrow> if mounted then setPosts [] s else s
                | Rejected \<Rightarrow> if mounted then setPosts [] s else s)
      in if mounted then setLoading False s1 else s1)"

text \<open>
  \<^verbatim>\<open>deletePost\<close>: the updater given to \<^verbatim>\<open>setPosts\<close> filters the array, computes the page
  count of the result and queues \<^verbatim>\<open>setCurrentPage(cp => Math.min(cp, totalPages))\<close>.
  The length of an array is below \<open>2^32\<close>, where the floating-point quotient by 6 has the
  same ceiling as the exact one, so the quotient is taken in the reals.
\<close>

definition deletePost :: "int \<Rightarrow> store \<Rightarrow> store" where
  "deletePost i s =
     (let next = filter (\<lambda>p. post_id p \<noteq> i) (posts s);
          totalPages = max 1 \<lceil>real (length next) / 6\<rceil>
      in setPosts next (setCurrentPage_fn (\<lambda>cp. min cp totalPages) s))"

section \<open>Pagination\<close>

definition Pagination_totalPages :: "store \<Rightarrow> int" where
  "Pagination_totalPages s = max 1 \<lceil>real (length (posts s)) / 6\<rceil>"

text \<open>
  The two handlers close over the page count of the render they were created in, which
  is the page count of the state they are invoked on.
\<close>

definition goPrev :: "store \<Rightarrow> store" where
  "goPrev s = setCurrentPage_fn (\<lambda>p. max 1 (p - 1)) s"

definition goNext :: "store \<Rightarrow> store" where
  "goNext s = setCurrentPage_fn (\<lambda>p. min (Pagination_totalPages s) (p + 1)) s"

section \<open>PostsGrid\<close>

definition perPage :: int where
  "perPage = 6"

definition PostsGrid_totalPages :: "store \<Rightarrow> int" where
  "PostsGrid_totalPages s = max 1 \<lceil>real (length (posts s)) / real_of_int perPage\<rceil>"

definition PostsGrid_page :: "store \<Rightarrow> int" where
  "PostsGrid_page s = min (currentPage s) (PostsGrid_totalPages s)"

definition PostsGrid_start :: "store \<Rightarrow> int" where
  "PostsGrid_start s = (PostsGrid_page s - 1) * perPage"

definition PostsGrid_slice :: "store \<Rightarrow> post list" where
  "PostsGrid_slice s = js_slice (posts s) (PostsGrid_start s) (PostsGrid_start s + perPage)"

section \<open>The cursor invariant\<close>

text \<open>\<open>1 \<le> cursor \<le> max(1, ceil(len(Collection)/pageSize))\<close> with \<open>pageSize = 6\<close>.\<close>

definition cursor_inv :: "store \<Rightarrow> bool" where
  "cursor_inv s \<longleftrightarrow>
     1 \<le> currentPage s \<and> currentPage s \<le> max 1 \<lceil>real (length (posts s)) / 6\<rceil>"

section \<open>Fixtures\<close>

text \<open>
  Concrete stores for the scenarios: \<open>n\<close> loaded posts with the identifiers \<open>1, \<dots>, n\<close>
  in this order, and a given page cursor.
\<close>

definition sample_post :: "nat \<Rightarrow> post" where
  "sample_post k = \<lparr>post_id = int k, title = ''t'', body = ''b'', img = ''i''\<rparr>"

definition sample_store :: "nat \<Rightarrow> int \<Rightarrow> store" where
  "sample_store n cp = \<lparr>posts = map sample_post [1..<Suc n], loading = False, currentPage = cp\<rparr>"

section \<open>Auxiliary facts\<close>

subsection \<open>Page count\<close>

text \<open>The ceiling of the quotient by 6, as an integer division.\<close>

lemma ceil6: "\<lceil>real n / 6\<rceil> = (int n + 5) div 6"
proof -
  have "\<lceil>real n / 6\<rceil> = \<lceil>real_of_int (int n) / real_of_int 6\<rceil>" by simp
  also have "\<dots> = - (- int n div 6)" by (rule ceiling_divide_eq_div)
  also have "\<dots> = (int n + 5) div 6" by presburger
  finally show ?thesis .
qed

lemma PostsGrid_totalPages_div: "PostsGrid_totalPages s = max 1 ((int (length (posts s)) + 5) div 6)"
  by (simp add: PostsGrid_totalPages_def perPage_def ceil6)

lemma Pagination_totalPages_div: "Pagination_totalPages s = max 1 ((int (length (posts s)) + 5) div 6)"
  by (simp add: Pagination_totalPages_def ceil6)

lemma cursor_inv_div:
  "cursor_inv s \<longleftrightarrow> 1 \<le> currentPage s \<and> currentPage s \<le> max 1 ((int (length (posts s)) + 5) div 6)"
  by (simp add: cursor_inv_def ceil6)

lemma ceil_least:
  fixes n :: nat
  shows "int n \<le> 6 * max 1 ((int n + 5) div 6)"
    and "6 * (max 1 ((int n + 5) div 6) - 1) < int n \<or> max 1 ((int n + 5) div 6) = 1"
proof -
  have ti: "(int n + 5) div 6 = int ((n + 5) div 6)" by (simp add: zdiv_int)
  have hi: "n \<le> 6 * ((n + 5) div 6)" by arith
  show "int n \<le> 6 * max 1 ((int n + 5) div 6)"
    using hi unfolding ti by (simp add: max_def)
  show "6 * (max 1 ((int n + 5) div 6) - 1) < int n \<or> max 1 ((int n + 5) div 6) = 1"
  proof (cases "n = 0")
    case True
    then show ?thesis by simp
  next
    case False
    define t where "t = (n + 5) div 6"
    have lo: "6 * (t - 1) < n" and t1: "1 \<le> t" using False unfolding t_def by arith+
    have "int (6 * (t - 1)) < int n" using lo by (simp only: of_nat_less_iff)
    moreover have "int (6 * (t - 1)) = 6 * (int t - 1)" using t1 by (simp add: of_nat_diff)
    ultimately have "6 * (int t - 1) < int n" by simp
    moreover have "1 \<le> int t" using t1 by simp
    ultimately show ?thesis unfolding ti t_def by (simp add: max_def)
  qed
qed

lemma small_ceil: "(r::nat) < 6 \<Longrightarrow> (r + 5) div 6 = (if r = 0 then 0 else 1)"
  by arith

lemma ceil_div_mod: "((n::nat) + 5) div 6 = n div 6 + (if n mod 6 = 0 then 0 else 1)"
proof -
  have "(n + 5) div 6 = (n mod 6 + 5 + 6 * (n div 6)) div 6" by simp
  also have "\<dots> = (n mod 6 + 5) div 6 + n div 6" by (simp only: div_mult_self4)
  also have "(n mod 6 + 5) div 6 = (if n mod 6 = 0 then 0 else 1)" by (rule small_ceil) simp
  finally show ?thesis by simp
qed

lemma last_page_length:
  assumes "0 < (n::nat)"
  shows "n - 6 * ((n + 5) div 6 - 1) = (if n mod 6 = 0 then 6 else n mod 6)"
proof (cases "n mod 6 = 0")
  case True
  then have e: "n = 6 * (n div 6)" by auto
  with assms have "1 \<le> n div 6" by simp
  then have "6 * (n div 6) - 6 * (n div 6 - 1) = 6" by simp
  with e True show ?thesis by (simp add: ceil_div_mod)
next
  case False
  then show ?thesis by (simp add: ceil_div_mod minus_mult_div_eq_mod)
qed

lemma slice_length_arith:
  fixes n :: nat and c :: int
  assumes "1 \<le> c" and "c \<le> max 1 ((int n + 5) div 6)"
  shows "min (nat (c * 6)) n - nat ((c - 1) * 6) =
           (if c < max 1 ((int n + 5) div 6) then 6
            else if n = 0 then 0
            else if n mod 6 = 0 then 6 else n mod 6)"
proof (cases "n = 0")
  case True
  with assms show ?thesis by simp
next
  case False
  define t where "t = (n + 5) div 6"
  have ti: "(int n + 5) div 6 = int t" by (simp add: t_def zdiv_int)
  have t1: "1 \<le> t" using False unfolding t_def by arith
  have lo: "6 * (t - 1) < n" using False unfolding t_def by arith
  have hi: "n \<le> 6 * t" unfolding t_def by arith
  have tmax: "max 1 ((int n + 5) div 6) = int t" using t1 by (simp add: ti)
  have ct: "c \<le> int t" using assms(2) tmax by simp
  show ?thesis
  proof (cases "c < int t")
    case True
    then have "c \<le> int (t - 1)" using t1 by simp
    then have "c * 6 \<le> int (6 * (t - 1))" by simp
    then have "c * 6 \<le> int n" using lo by simp
    then have "min (nat (c * 6)) n = nat (c * 6)" by (simp add: algebra_simps)
    moreover have "nat (c * 6) - nat ((c - 1) * 6) = 6"
      using assms(1) by (simp add: algebra_simps nat_diff_distrib')
    ultimately show ?thesis using True tmax by simp
  next
    case False
    then have c: "c = int t" using ct by simp
    have m: "min (nat (c * 6)) n = n" using hi c by (simp add: algebra_simps)
    have "(c - 1) * 6 = int (6 * (t - 1))" using t1 c by (simp add: algebra_simps of_nat_diff)
    then have "nat ((c - 1) * 6) = 6 * (t - 1)" by (simp only: nat_int)
    moreover have "n - 6 * (t - 1) = (if n mod 6 = 0 then 6 else n mod 6)"
      unfolding t_def using \<open>n \<noteq> 0\<close> by (intro last_page_length) simp
    ultimately show ?thesis using m c tmax \<open>n \<noteq> 0\<close> by simp
  qed
qed

subsection \<open>deletePost, field by field\<close>

lemma posts_deletePost: "posts (deletePost i s) = filter (\<lambda>p. post_id p \<noteq> i) (posts s)"
  by (simp add: deletePost_def setPosts_def setCurrentPage_fn_def Let_def)

lemma loading_deletePost: "loading (deletePost i s) = loading s"
  by (simp add: deletePost_def setPosts_def setCurrentPage_fn_def Let_def)

lemma currentPage_deletePost:
  "currentPage (deletePost i s) =
     min (currentPage s) (max 1 ((int (length (filter (\<lambda>p. post_id p \<noteq> i) (posts s))) + 5) div 6))"
  by (simp add: deletePost_def setPosts_def setCurrentPage_fn_def Let_def ceil6)

lemma at_most_one_with_id:
  "distinct (map f xs) \<Longrightarrow> length (filter (\<lambda>p. f p = i) xs) \<le> 1"
  by (induction xs) (auto simp: filter_empty_conv image_iff)

subsection \<open>Slices\<close>

lemma take_drop_nth:
  "take n (drop m xs) = map (\<lambda>k. xs ! k) [m ..< min (m + n) (length xs)]"
  by (rule nth_equalityI) auto

lemma js_slice_in_range:
  assumes "0 \<le> a" and "a \<le> int (length xs)" and "0 \<le> b"
  shows "js_slice xs a b = map (\<lambda>k. xs ! k) [nat a ..< min (nat b) (length xs)]"
proof -
  have "js_slice xs a b = take (nat (min b (int (length xs)) - a)) (drop (nat a) xs)"
    using assms by (simp add: js_slice_def Let_def min_absorb1)
  also have "\<dots> = map (\<lambda>k. xs ! k) [nat a ..< min (nat a + nat (min b (int (length xs)) - a)) (length xs)]"
    by (rule take_drop_nth)
  also have "[nat a ..< min (nat a + nat (min b (int (length xs)) - a)) (length xs)]
               = [nat a ..< min (nat b) (length xs)]"
  proof (cases "a \<le> b")
    case True
    with assms have "min (nat a + nat (min b (int (length xs)) - a)) (length xs) = min (nat b) (length xs)"
      by arith
    then show ?thesis by simp
  next
    case False
    with assms have "min (nat a + nat (min b (int (length xs)) - a)) (length xs) = nat a"
      and "min (nat b) (length xs) \<le> nat a"
      by arith+
    then show ?thesis by simp
  qed
  finally show ?thesis .
qed

lemma start_bounds:
  assumes "cursor_inv s"
  shows "PostsGrid_page s = currentPage s"
    and "0 \<le> PostsGrid_start s"
    and "PostsGrid_start s \<le> int (length (posts s))"
  using assms
  by (auto simp add: cursor_inv_div PostsGrid_page_def PostsGrid_start_def perPage_def
      PostsGrid_totalPages_div)

subsection \<open>Loading and fixtures\<close>

lemma truncate_withImages: "map raw_post.truncate (withImages data) = data"
  by (induction data) (simp_all add: withImages_def raw_post.truncate_def)

lemma length_sample: "length (posts (sample_store n cp)) = n"
  by (simp add: sample_store_def)

lemma currentPage_sample: "currentPage (sample_store n cp) = cp"
  by (simp add: sample_store_def)

lemma cursor_inv_sample:
  "cursor_inv (sample_store n cp) \<longleftrightarrow> 1 \<le> cp \<and> cp \<le> max 1 ((int n + 5) div 6)"
  by (simp add: cursor_inv_div length_sample currentPage_sample)

section \<open>Selecting a page\<close>

text \<open>
  C1, as stated, fails: \<^verbatim>\<open>setCurrentPage\<close> is the bare state setter and \<^verbatim>\<open>PostsGrid\<close> only
  takes the minimum with the page count, so a request for page 0 on 18 posts is read back
  as page 0, below the range \<open>[1, totalPages]\<close>.
\<close>

theorem goToPage_nonpositive_counterexample:
  "\<not> (1 \<le> PostsGrid_page (setCurrentPage 0 (sample_store 18 1))
      \<and> PostsGrid_page (setCurrentPage 0 (sample_store 18 1))
          \<le> PostsGrid_totalPages (setCurrentPage 0 (sample_store 18 1)))"
  by (simp add: PostsGrid_page_def PostsGrid_totalPages_div setCurrentPage_def sample_store_def)

text \<open>
  C1 (amended): for every integer \<open>n \<ge> 1\<close>, also beyond the page count, selecting page
  \<open>n\<close> stores \<open>n\<close> unchanged and leaves the posts alone, and the page that \<^verbatim>\<open>PostsGrid\<close>
  reads is \<open>min n totalPages\<close>, which lies in \<open>[1, totalPages]\<close>: a request above the
  range is clamped when read, not rejected.
\<close>

theorem goToPage_effective_page_in_range:
  assumes "1 \<le> n"
  shows "currentPage (setCurrentPage n s) = n
         \<and> posts (setCurrentPage n s) = posts s
         \<and> PostsGrid_page (setCurrentPage n s) = min n (PostsGrid_totalPages s)
         \<and> 1 \<le> PostsGrid_page (setCurrentPage n s)
         \<and> PostsGrid_page (setCurrentPage n s) \<le> PostsGrid_totalPages (setCurrentPage n s)"
  using assms
  by (simp add: PostsGrid_page_def PostsGrid_totalPages_div setCurrentPage_def)

text \<open>Page 7 requested on 18 posts.\<close>

theorem goToPage_effective_page_in_range_witness:
  "(1::int) \<le> 7
   \<and> currentPage (setCurrentPage 7 (sample_store 18 1)) = 7
   \<and> posts (setCurrentPage 7 (sample_store 18 1)) = posts (sample_store 18 1)
   \<and> PostsGrid_page (setCurrentPage 7 (sample_store 18 1)) = min 7 (PostsGrid_totalPages (sample_store 18 1))
   \<and> 1 \<le> PostsGrid_page (setCurrentPage 7 (sample_store 18 1))
   \<and> PostsGrid_page (setCurrentPage 7 (sample_store 18 1))
        \<le> PostsGrid_totalPages (setCurrentPage 7 (sample_store 18 1))"
proof -
  have h: "(1::int) \<le> 7" by simp
  show ?thesis using h goToPage_effective_page_in_range [OF h, of "sample_store 18 1"] by blast
qed

section \<open>Removal and the cursor invariant\<close>

text \<open>
  C2: if the cursor satisfies \<open>1 \<le> cursor \<le> max(1, ceil(len(C)/6))\<close>, then after
  \<^verbatim>\<open>deletePost\<close> the collection is \<open>C\<close> without the posts of that id, the cursor is the old
  one clamped to the new page count, and it satisfies
  \<open>1 \<le> cursor \<le> max(1, ceil(len(C')/6))\<close> again.
\<close>

theorem deletePost_preserves_cursor_inv:
  assumes "cursor_inv s"
  shows "cursor_inv (deletePost i s)
         \<and> posts (deletePost i s) = filter (\<lambda>p. post_id p \<noteq> i) (posts s)
         \<and> currentPage (deletePost i s) =
             min (currentPage s) (max 1 \<lceil>real (length (filter (\<lambda>p. post_id p \<noteq> i) (posts s))) / 6\<rceil>)
         \<and> 1 \<le> currentPage (deletePost i s)
         \<and> currentPage (deletePost i s) \<le> max 1 \<lceil>real (length (filter (\<lambda>p. post_id p \<noteq> i) (posts s))) / 6\<rceil>"
  using assms by (simp add: cursor_inv_div posts_deletePost currentPage_deletePost ceil6)

text \<open>Thirteen posts, cursor on page 3; deleting post 13 leaves two pages and cursor 2.\<close>

theorem deletePost_preserves_cursor_inv_witness:
  "cursor_inv (sample_store 13 3) \<and> cursor_inv (deletePost 13 (sample_store 13 3))
   \<and> currentPage (deletePost 13 (sample_store 13 3)) = 2"
proof -
  have h: "cursor_inv (sample_store 13 3)" by (simp add: cursor_inv_sample)
  have "currentPage (deletePost 13 (sample_store 13 3)) = 2"
    by code_simp
  then show ?thesis using h deletePost_preserves_cursor_inv [OF h, of 13] by blast
qed

text \<open>
  C5: in a state satisfying the cursor invariant, \<^verbatim>\<open>deletePost\<close> with an id that no post
  carries returns the state unchanged: same posts, same cursor, same loading flag.
\<close>

theorem deletePost_absent_noop:
  assumes "cursor_inv s" and "i \<notin> post_id ` set (posts s)"
  shows "deletePost i s = s"
proof -
  have f: "filter (\<lambda>p. post_id p \<noteq> i) (posts s) = posts s"
    using assms(2) by (auto simp: filter_id_conv)
  have "currentPage (deletePost i s) = currentPage s"
    using assms(1) by (simp add: currentPage_deletePost f cursor_inv_div)
  moreover have "posts (deletePost i s) = posts s"
    by (simp add: posts_deletePost f)
  moreover have "loading (deletePost i s) = loading s"
    by (rule loading_deletePost)
  ultimately show ?thesis by simp
qed

text \<open>Three posts with the ids 1, 2, 3; id 99 is absent.\<close>

theorem deletePost_absent_noop_witness:
  "cursor_inv (sample_store 3 1)
   \<and> 99 \<notin> post_id ` set (posts (sample_store 3 1))
   \<and> deletePost 99 (sample_store 3 1) = sample_store 3 1"
proof -
  have h: "cursor_inv (sample_store 3 1)" by (simp add: cursor_inv_sample)
  have a: "99 \<notin> post_id ` set (posts (sample_store 3 1))"
    by (auto simp add: sample_store_def sample_post_def)
  show ?thesis using h a deletePost_absent_noop [OF h a] by blast
qed

text \<open>
  C6: \<^verbatim>\<open>deletePost\<close> is idempotent: applying it twice with the same id gives the state
  that applying it once gives. This holds in every state, whether or not the cursor is in
  range.
\<close>

theorem deletePost_idempotent: "deletePost i (deletePost i s) = deletePost i s"
  by (simp add: deletePost_def setPosts_def setCurrentPage_fn_def Let_def)

text \<open>Deleting post 2 of three posts twice.\<close>

theorem deletePost_idempotent_witness:
  "deletePost 2 (deletePost 2 (sample_store 3 1)) = deletePost 2 (sample_store 3 1)"
  using deletePost_idempotent [of 2 "sample_store 3 1"] by simp

text \<open>
  C10: \<^verbatim>\<open>deletePost\<close> never increases the cursor. This holds for every cursor value, in
  particular for every cursor that is at least 1.
\<close>

theorem deletePost_cursor_nonincreasing: "currentPage (deletePost i s) \<le> currentPage s"
  by (simp add: currentPage_deletePost)

text \<open>Thirteen posts, cursor 3, deleting post 13.\<close>

theorem deletePost_cursor_nonincreasing_witness:
  "currentPage (deletePost 13 (sample_store 13 3)) \<le> currentPage (sample_store 13 3)"
  using deletePost_cursor_nonincreasing [of 13 "sample_store 13 3"] by simp

text \<open>
  C9: if the ids of the posts are pairwise distinct, then after \<^verbatim>\<open>deletePost\<close> they still
  are, the remaining posts are the posts with another id in their former relative order
  (a subsequence of the former list), and at most one post is gone. The other operations
  on the store (\<^verbatim>\<open>goNext\<close>, \<^verbatim>\<open>goPrev\<close>, selecting a page, clearing the loading flag)
  leave the posts unchanged.
\<close>

theorem deletePost_keeps_order_and_uniqueness:
  assumes "distinct (map post_id (posts s))"
  shows "distinct (map post_id (posts (deletePost i s)))
         \<and> subseq (posts (deletePost i s)) (posts s)
         \<and> set (posts (deletePost i s)) = {p \<in> set (posts s). post_id p \<noteq> i}
         \<and> length (posts s) \<le> Suc (length (posts (deletePost i s)))
         \<and> posts (goNext s) = posts s
         \<and> posts (goPrev s) = posts s
         \<and> posts (setCurrentPage n s) = posts s
         \<and> posts (setLoading b s) = posts s"
proof -
  have "distinct (map post_id (posts (deletePost i s)))"
    using assms by (simp add: posts_deletePost distinct_map_filter)
  moreover have "subseq (posts (deletePost i s)) (posts s)"
    by (simp add: posts_deletePost)
  moreover have "set (posts (deletePost i s)) = {p \<in> set (posts s). post_id p \<noteq> i}"
    by (simp add: posts_deletePost)
  moreover have "length (posts s) \<le> Suc (length (posts (deletePost i s)))"
  proof -
    have "length (filter (\<lambda>p. post_id p = i) (posts s)) \<le> 1"
      using assms by (rule at_most_one_with_id)
    then show ?thesis
      using sum_length_filter_compl [of "\<lambda>p. post_id p = i" "posts s"]
      by (simp add: posts_deletePost)
  qed
  moreover have "posts (goNext s) = posts s" "posts (goPrev s) = posts s"
    "posts (setCurrentPage n s) = posts s" "posts (setLoading b s) = posts s"
    by (simp_all add: goNext_def goPrev_def setCurrentPage_fn_def setCurrentPage_def setLoading_def)
  ultimately show ?thesis by blast
qed

text \<open>Deleting post 2 of the posts 1, 2, 3 leaves 1, 3.\<close>

theorem deletePost_keeps_order_and_uniqueness_witness:
  "distinct (map post_id (posts (sample_store 3 1)))
   \<and> distinct (map post_id (posts (deletePost 2 (sample_store 3 1))))
   \<and> subseq (posts (deletePost 2 (sample_store 3 1))) (posts (sample_store 3 1))
   \<and> posts (deletePost 2 (sample_store 3 1)) = [sample_post 1, sample_post 3]"
proof -
  have h: "distinct (map post_id (posts (sample_store 3 1)))"
    by code_simp
  have "posts (deletePost 2 (sample_store 3 1)) = [sample_post 1, sample_post 3]"
    by code_simp
  then show ?thesis using h deletePost_keeps_order_and_uniqueness [OF h, of 2] by blast
qed

section \<open>The derived view\<close>

text \<open>
  C4: the page count computed by \<^verbatim>\<open>Pagination\<close> and by \<^verbatim>\<open>PostsGrid\<close> is
  \<open>max(1, ceil(len/6))\<close>: it is at least 1, its pages hold all posts, and unless it is 1
  one page fewer would not; it is 1 for the empty collection and 3 for 18 posts.
\<close>

theorem totalPages_is_ceiling:
  "Pagination_totalPages s = max 1 \<lceil>real (length (posts s)) / 6\<rceil>
   \<and> PostsGrid_totalPages s = max 1 \<lceil>real (length (posts s)) / 6\<rceil>
   \<and> 1 \<le> PostsGrid_totalPages s
   \<and> int (length (posts s)) \<le> 6 * PostsGrid_totalPages s
   \<and> (6 * (PostsGrid_totalPages s - 1) < int (length (posts s)) \<or> PostsGrid_totalPages s = 1)
   \<and> (posts s = [] \<longrightarrow> PostsGrid_totalPages s = 1)
   \<and> (length (posts s) = 18 \<longrightarrow> PostsGrid_totalPages s = 3)"
proof -
  have "Pagination_totalPages s = max 1 \<lceil>real (length (posts s)) / 6\<rceil>"
    by (simp add: Pagination_totalPages_def)
  moreover have "PostsGrid_totalPages s = max 1 \<lceil>real (length (posts s)) / 6\<rceil>"
    by (simp add: PostsGrid_totalPages_def perPage_def)
  moreover have "1 \<le> PostsGrid_totalPages s"
    by (simp add: PostsGrid_totalPages_div)
  moreover have "int (length (posts s)) \<le> 6 * PostsGrid_totalPages s"
    unfolding PostsGrid_totalPages_div by (rule ceil_least)
  moreover have "6 * (PostsGrid_totalPages s - 1) < int (length (posts s)) \<or> PostsGrid_totalPages s = 1"
    unfolding PostsGrid_totalPages_div by (rule ceil_least)
  moreover have "posts s = [] \<longrightarrow> PostsGrid_totalPages s = 1"
    by (simp add: PostsGrid_totalPages_div)
  moreover have "length (posts s) = 18 \<longrightarrow> PostsGrid_totalPages s = 3"
    by (simp add: PostsGrid_totalPages_div)
  ultimately show ?thesis by blast
qed

text \<open>The empty collection and the collection of 18 posts.\<close>

theorem totalPages_is_ceiling_witness:
  "posts (sample_store 0 1) = [] \<and> PostsGrid_totalPages (sample_store 0 1) = 1
   \<and> length (posts (sample_store 18 1)) = 18 \<and> PostsGrid_totalPages (sample_store 18 1) = 3"
proof -
  have e: "posts (sample_store 0 1) = []" by (simp add: sample_store_def)
  have l: "length (posts (sample_store 18 1)) = 18" by (simp add: length_sample)
  show ?thesis using e l totalPages_is_ceiling [of "sample_store 0 1"] totalPages_is_ceiling [of "sample_store 18 1"] by blast
qed

text \<open>
  C3, as stated, fails on the empty collection: the cursor 1 is in range and page 1 is
  the last page, the length 0 is evenly divisible by 6, yet the slice holds 0 posts and
  not 6.
\<close>

theorem visible_slice_empty_counterexample:
  "cursor_inv \<lparr>posts = [], loading = False, currentPage = 1\<rparr>
   \<and> PostsGrid_page \<lparr>posts = [], loading = False, currentPage = 1\<rparr>
       = PostsGrid_totalPages \<lparr>posts = [], loading = False, currentPage = 1\<rparr>
   \<and> length (PostsGrid_slice \<lparr>posts = [], loading = False, currentPage = 1\<rparr>)
       \<noteq> (if length (posts \<lparr>posts = [], loading = False, currentPage = 1\<rparr>) mod 6 = 0 then 6
          else length (posts \<lparr>posts = [], loading = False, currentPage = 1\<rparr>) mod 6)"
  by (simp add: cursor_inv_div PostsGrid_page_def PostsGrid_totalPages_div PostsGrid_slice_def
      js_slice_def)

text \<open>
  C3 (amended): for every collection and every in-range cursor, the visible slice is the
  contiguous run of posts at the indices from \<open>(page - 1) * 6\<close> up to, but not including,
  \<open>page * 6\<close> (cut at the end of the collection). Its length is 6 on every page before
  the last; on the last page it is 0 for the empty collection, and otherwise
  \<open>len mod 6\<close>, or 6 when the length is evenly divisible by 6.
\<close>

theorem visible_slice_contiguous:
  assumes "cursor_inv s"
  shows "PostsGrid_slice s =
           map (\<lambda>k. posts s ! k)
             [nat ((PostsGrid_page s - 1) * 6) ..< min (nat (PostsGrid_page s * 6)) (length (posts s))]
         \<and> length (PostsGrid_slice s) =
             (if PostsGrid_page s < PostsGrid_totalPages s then 6
              else if posts s = [] then 0
              else if length (posts s) mod 6 = 0 then 6
              else length (posts s) mod 6)"
proof -
  note b = start_bounds [OF assms]
  have st: "PostsGrid_start s = (PostsGrid_page s - 1) * 6"
    by (simp add: PostsGrid_start_def perPage_def)
  have en: "PostsGrid_start s + perPage = PostsGrid_page s * 6"
    by (simp add: PostsGrid_start_def perPage_def algebra_simps)
  have pg: "1 \<le> PostsGrid_page s" "PostsGrid_page s \<le> max 1 ((int (length (posts s)) + 5) div 6)"
    using assms b(1) by (simp_all add: cursor_inv_div)
  have "PostsGrid_slice s =
          map (\<lambda>k. posts s ! k)
            [nat (PostsGrid_start s) ..< min (nat (PostsGrid_start s + perPage)) (length (posts s))]"
    unfolding PostsGrid_slice_def
    using b(2,3) by (intro js_slice_in_range) (simp_all add: perPage_def)
  then have "PostsGrid_slice s =
          map (\<lambda>k. posts s ! k)
            [nat (PostsGrid_start s) ..< min (nat (PostsGrid_page s * 6)) (length (posts s))]"
    by (simp only: en)
  then have eq: "PostsGrid_slice s =
          map (\<lambda>k. posts s ! k)
            [nat ((PostsGrid_page s - 1) * 6) ..< min (nat (PostsGrid_page s * 6)) (length (posts s))]"
    by (simp only: st)
  have "length (PostsGrid_slice s) =
          min (nat (PostsGrid_page s * 6)) (length (posts s)) - nat ((PostsGrid_page s - 1) * 6)"
    by (subst eq) simp
  also have "\<dots> = (if PostsGrid_page s < max 1 ((int (length (posts s)) + 5) div 6) then 6
            else if length (posts s) = 0 then 0
            else if length (posts s) mod 6 = 0 then 6 else length (posts s) mod 6)"
    using pg by (rule slice_length_arith)
  finally have "length (PostsGrid_slice s) =
             (if PostsGrid_page s < PostsGrid_totalPages s then 6
              else if posts s = [] then 0
              else if length (posts s) mod 6 = 0 then 6
              else length (posts s) mod 6)"
    by (simp add: PostsGrid_totalPages_div)
  with eq show ?thesis by blast
qed

text \<open>Seventeen posts, cursor on the last page 3: five posts are shown.\<close>

theorem visible_slice_contiguous_witness:
  "cursor_inv (sample_store 17 3)
   \<and> length (PostsGrid_slice (sample_store 17 3)) =
       (if PostsGrid_page (sample_store 17 3) < PostsGrid_totalPages (sample_store 17 3) then 6
        else if posts (sample_store 17 3) = [] then 0
        else if length (posts (sample_store 17 3)) mod 6 = 0 then 6
        else length (posts (sample_store 17 3)) mod 6)
   \<and> length (PostsGrid_slice (sample_store 17 3)) = 5"
proof -
  have h: "cursor_inv (sample_store 17 3)" by (simp add: cursor_inv_sample)
  have "length (PostsGrid_slice (sample_store 17 3)) = 5"
    by (simp add: PostsGrid_slice_def PostsGrid_start_def PostsGrid_page_def
        PostsGrid_totalPages_div perPage_def js_slice_def sample_store_def)
  then show ?thesis using h visible_slice_contiguous [OF h] by blast
qed

section \<open>Previous and next page\<close>

text \<open>
  C7: in a state with the cursor in \<open>[1, totalPages]\<close>, \<^verbatim>\<open>goNext\<close> adds one to the cursor
  and clamps it to the page count, changing nothing when the cursor is on the last page;
  \<^verbatim>\<open>goPrev\<close> subtracts one and clamps to 1, changing nothing when the cursor is 1. Both
  are total state transformers with no error result, and both keep the cursor in range.
\<close>

theorem goNext_goPrev_clamped:
  assumes "cursor_inv s"
  shows "goNext s = (if currentPage s = Pagination_totalPages s then s
                     else s\<lparr>currentPage := currentPage s + 1\<rparr>)
         \<and> goPrev s = (if currentPage s = 1 then s else s\<lparr>currentPage := currentPage s - 1\<rparr>)
         \<and> currentPage (goNext s) = min (Pagination_totalPages s) (currentPage s + 1)
         \<and> currentPage (goPrev s) = max 1 (currentPage s - 1)
         \<and> cursor_inv (goNext s) \<and> cursor_inv (goPrev s)"
  using assms
  by (auto simp add: goNext_def goPrev_def setCurrentPage_fn_def cursor_inv_div
      Pagination_totalPages_div)

text \<open>Eighteen posts, cursor on the last page 3.\<close>

theorem goNext_goPrev_clamped_witness:
  "cursor_inv (sample_store 18 3)
   \<and> goNext (sample_store 18 3) = sample_store 18 3
   \<and> goPrev (sample_store 18 3) = sample_store 18 2"
proof -
  have h: "cursor_inv (sample_store 18 3)" by (simp add: cursor_inv_sample)
  have t: "Pagination_totalPages (sample_store 18 3) = 3"
    by (simp add: Pagination_totalPages_div length_sample)
  have c: "currentPage (sample_store 18 3) = 3" by (simp add: currentPage_sample)
  have u: "(sample_store 18 3)\<lparr>currentPage := 3 - 1\<rparr> = sample_store 18 2"
    by (simp add: sample_store_def)
  show ?thesis using h goNext_goPrev_clamped [OF h] t c u by simp
qed

section \<open>Loading the posts\<close>

text \<open>
  C8, as stated, fails: \<^verbatim>\<open>fetchPosts\<close> never calls \<^verbatim>\<open>setCurrentPage\<close>, so a cursor of 3
  before the load is still 3 after it.
\<close>

theorem load_cursor_counterexample:
  "currentPage (fetchPosts True (Resolved_array []) \<lparr>posts = [], loading = True, currentPage = 3\<rparr>) \<noteq> 1"
  by (simp add: fetchPosts_def setPosts_def setLoading_def withImages_def)

text \<open>
  C8 (amended): once the fetch has settled on a mounted provider, the posts are replaced
  wholesale by the fetched sequence, each post extended by its image reference (dropping
  the image field gives back exactly the fetched sequence), or by the empty sequence when
  the fetch failed or did not deliver an array; the loading flag is cleared. The cursor is
  left as it was, so from the initial state, whose cursor is 1, it is 1 after the load.
  On an unmounted provider nothing changes.
\<close>

theorem load_replaces_posts_keeps_cursor:
  "posts (fetchPosts True (Resolved_array data) s) = withImages data
   \<and> map raw_post.truncate (posts (fetchPosts True (Resolved_array data) s)) = data
   \<and> posts (fetchPosts True Resolved_other s) = []
   \<and> posts (fetchPosts True Rejected s) = []
   \<and> loading (fetchPosts True outcome s) = False
   \<and> currentPage (fetchPosts mounted outcome s) = currentPage s
   \<and> currentPage (fetchPosts mounted outcome initial_store) = 1
   \<and> fetchPosts False outcome s = s"
  by (cases outcome)
    (simp_all add: fetchPosts_def setPosts_def setLoading_def truncate_withImages
      initial_store_def)

text \<open>A single fetched post with id 7, loaded into the initial state.\<close>

theorem load_replaces_posts_keeps_cursor_witness:
  "posts (fetchPosts True (Resolved_array [\<lparr>post_id = 7, title = ''a'', body = ''b''\<rparr>]) initial_store)
     = [\<lparr>post_id = 7, title = ''a'', body = ''b'', img = ''https://picsum.photos/seed/7/400/250''\<rparr>]
   \<and> posts (fetchPosts True Rejected initial_store) = []
   \<and> currentPage (fetchPosts True (Resolved_array [\<lparr>post_id = 7, title = ''a'', body = ''b''\<rparr>]) initial_store) = 1"
proof -
  have "withImages [\<lparr>post_id = 7, title = ''a'', body = ''b''\<rparr>]
          = [\<lparr>post_id = 7, title = ''a'', body = ''b'', img = ''https://picsum.photos/seed/7/400/250''\<rparr>]"
    by code_simp
  then show ?thesis
    using load_replaces_posts_keeps_cursor [of "[\<lparr>post_id = 7, title = ''a'', body = ''b''\<rparr>]" initial_store
                 "Resolved_array [\<lparr>post_id = 7, title = ''a'', body = ''b''\<rparr>]" True]
    by simp
qed

end
